theory Spec2Isabelle
  imports Complex_Main
begin

section \<open>Tensors and the framework operations the notebooks call\<close>

text \<open>
  The two notebooks (Part 3, MNIST; Part 4, Fashion-MNIST) assemble calls to a tensor
  framework. A tensor is a shape together with its elements in row-major order, as the
  framework stores a contiguous tensor. Elements are real numbers: rounding of the
  framework's 32-bit kernels is outside this development.
\<close>

record tensor =
  shape :: "nat list"
  data :: "real list"

definition numel :: "tensor \<Rightarrow> nat" where
  "numel t = prod_list (shape t)"

datatype error = IndexError | RuntimeError | ValueError | ZeroDivisionError | NameError

text \<open>
  \<^verbatim>\<open>t.view(b, -1)\<close>: the second size is inferred from the number of elements. The
  framework raises when it cannot be inferred (\<open>b = 0\<close>) or does not divide.
\<close>

definition view_infer :: "tensor \<Rightarrow> nat \<Rightarrow> error + tensor" where
  "view_infer t b =
     (if b = 0 \<or> numel t mod b \<noteq> 0 then Inl RuntimeError
      else Inr (t\<lparr>shape := [b, numel t div b]\<rparr>))"

text \<open>\<^verbatim>\<open>images.view(images.shape[0], -1)\<close>; \<^verbatim>\<open>shape[0]\<close> of a tensor without
  dimensions raises.\<close>

definition flatten :: "tensor \<Rightarrow> error + tensor" where
  "flatten t =
     (case shape t of
        [] \<Rightarrow> Inl IndexError
      | b # _ \<Rightarrow> view_infer t b)"


text \<open>
  \<^verbatim>\<open>t.resize_(s)\<close> never raises: it keeps the leading elements and, when the new shape
  holds more elements than the tensor has, exposes uninitialised storage. The content
  of that storage is the parameter \<open>junk\<close> (cell index to value).
\<close>

definition resize :: "(nat \<Rightarrow> real) \<Rightarrow> tensor \<Rightarrow> nat list \<Rightarrow> tensor" where
  "resize junk t s =
     \<lparr>shape = s,
      data = take (prod_list s) (data t) @ map junk [length (data t) ..< prod_list s]\<rparr>"




subsection \<open>Layers\<close>

text \<open>
  \<^verbatim>\<open>nn.Linear(n, m)\<close> holds a weight of shape \<open>(m, n)\<close> and a bias of shape \<open>(m)\<close>; the
  sizes are fixed when the layer is built, so weight and bias are functions of their
  indices. It acts on the last dimension and raises when that dimension is not \<open>n\<close>.
\<close>

datatype layer =
    Linear nat nat "nat \<Rightarrow> nat \<Rightarrow> real" "nat \<Rightarrow> real"
  | ReLU
  | LogSoftmax

definition linear :: "nat \<Rightarrow> nat \<Rightarrow> (nat \<Rightarrow> nat \<Rightarrow> real) \<Rightarrow> (nat \<Rightarrow> real) \<Rightarrow> tensor
    \<Rightarrow> error + tensor" where
  "linear n m W b t =
     (if shape t = [] \<or> last (shape t) \<noteq> n then Inl RuntimeError
      else Inr \<lparr>shape = butlast (shape t) @ [m],
                data = map (\<lambda>q. (\<Sum>k<n. data t ! ((q div m) * n + k) * W (q mod m) k)
                                  + b (q mod m))
                           [0 ..< prod_list (butlast (shape t)) * m]\<rparr>)"

definition relu :: "tensor \<Rightarrow> tensor" where
  "relu t = t\<lparr>data := map (max 0) (data t)\<rparr>"

text \<open>
  \<^verbatim>\<open>nn.LogSoftmax(dim=1)\<close>: every element has the logarithm of the sum of the
  exponentials along dimension 1 subtracted; a tensor with fewer than two dimensions
  has no dimension 1.
\<close>

definition log_softmax :: "tensor \<Rightarrow> error + tensor" where
  "log_softmax t =
     (case shape t of
        d0 # d1 # rest \<Rightarrow>
          (let inner = prod_list rest; x = data t in
           Inr (t\<lparr>data :=
                  map (\<lambda>q. x ! q - ln (\<Sum>j<d1. exp (x ! ((q div (d1 * inner)) * (d1 * inner)
                                                          + j * inner + q mod inner))))
                      [0 ..< d0 * d1 * inner]\<rparr>))
      | _ \<Rightarrow> Inl IndexError)"

fun apply_layer :: "layer \<Rightarrow> tensor \<Rightarrow> error + tensor" where
  "apply_layer (Linear n m W b) t = linear n m W b t"
| "apply_layer ReLU t = Inr (relu t)"
| "apply_layer LogSoftmax t = log_softmax t"

text \<open>\<^verbatim>\<open>nn.Sequential(...)\<close>: the layers in order; the first error ends the pass.\<close>

fun sequential :: "layer list \<Rightarrow> tensor \<Rightarrow> error + tensor" where
  "sequential [] t = Inr t"
| "sequential (l # ls) t =
     (case apply_layer l t of
        Inl e \<Rightarrow> Inl e
      | Inr t' \<Rightarrow> sequential ls t')"

subsection \<open>The model of both notebooks\<close>

record params =
  w1 :: "nat \<Rightarrow> nat \<Rightarrow> real"
  b1 :: "nat \<Rightarrow> real"
  w2 :: "nat \<Rightarrow> nat \<Rightarrow> real"
  b2 :: "nat \<Rightarrow> real"
  w3 :: "nat \<Rightarrow> nat \<Rightarrow> real"
  b3 :: "nat \<Rightarrow> real"

definition model :: "params \<Rightarrow> layer list" where
  "model \<theta> =
     [Linear 784 128 (w1 \<theta>) (b1 \<theta>),
      ReLU,
      Linear 128 64 (w2 \<theta>) (b2 \<theta>),
      ReLU,
      Linear 64 10 (w3 \<theta>) (b3 \<theta>),
      LogSoftmax]"

text \<open>
  \<^verbatim>\<open>nn.NLLLoss()\<close> on an output of shape \<open>(n, c)\<close> and \<open>n\<close> class indices: the mean of
  the negated outputs at the labelled classes. It raises when the batch sizes differ or
  a label is not a class. (For \<open>n = 0\<close> the framework's mean is not a number; no cell
  reaches the loss with an empty batch, because flattening raises first.)
\<close>

definition nll_loss :: "tensor \<Rightarrow> nat list \<Rightarrow> error + real" where
  "nll_loss out ls =
     (case shape out of
        [n, c] \<Rightarrow>
          if n \<noteq> length ls then Inl ValueError
          else if \<exists>l \<in> set ls. c \<le> l then Inl IndexError
          else Inr (- (\<Sum>i<n. data out ! (i * c + ls ! i)) / real n)
      | _ \<Rightarrow> Inl ValueError)"

section \<open>The notebook state and its statements\<close>

text \<open>
  What the framework contributes beyond the tensor operations above is a parameter of
  the development: reverse-mode differentiation (\<open>autograd\<close>: the gradient, with respect
  to the model parameters, of the loss of the model at the given parameters, flattened
  input and labels), the optimizer's update rule (\<open>opt_step\<close>: \<^verbatim>\<open>optim.SGD\<close> in Part 3,
  \<^verbatim>\<open>optim.Adam\<close> in Part 4; a parameter set without gradient is passed as \<open>None\<close>), whether
  \<^verbatim>\<open>zero_grad()\<close> resets gradients to zero or to \<^verbatim>\<open>None\<close> (the default changed between
  framework versions), the content of uninitialised storage, and how values print.
\<close>

record 'o env =
  autograd :: "params \<Rightarrow> tensor \<Rightarrow> nat list \<Rightarrow> params"
  opt_step :: "'o \<Rightarrow> params \<Rightarrow> params option \<Rightarrow> 'o \<times> params"
  set_to_none :: bool
  junk :: "nat \<Rightarrow> real"
  str_float :: "real \<Rightarrow> string"
  str_weight :: "(nat \<Rightarrow> nat \<Rightarrow> real) \<Rightarrow> string"

text \<open>The value of \<^verbatim>\<open>output\<close> (field \<open>outp\<close> of the state): the tensor and what its graph was built from.\<close>

record fwd =
  val :: tensor
  graph_params :: params
  graph_input :: tensor

text \<open>The value of \<^verbatim>\<open>loss\<close>: \<^verbatim>\<open>loss.item()\<close> and the gradient its graph yields.\<close>

record lossv =
  item :: real
  gradient :: params

text \<open>
  The variables of a notebook session. A variable that has not been assigned is
  \<open>None\<close>, and reading it raises \<^verbatim>\<open>NameError\<close>. \<open>grads\<close> is the \<^verbatim>\<open>.grad\<close> of the model
  parameters (\<^verbatim>\<open>None\<close> until the first backward pass), \<open>printed\<close> the lines written to
  the cell output, \<open>trace\<close> the statements completed so far.
\<close>

datatype stmt =
    Fetch tensor "nat list"
  | Flatten
  | Resize "nat list"
  | ZeroGrad
  | Forward
  | Loss
  | Backward
  | Step
  | Accum
  | PrintWeight string
  | PrintGrad string

record 'o state =
  params :: params
  grads :: "params option"
  opt_state :: 'o
  images :: "tensor option"
  labels :: "nat list option"
  outp :: "fwd option"
  loss :: "lossv option"
  running_loss :: "real option"
  printed :: "string list"
  trace :: "stmt list"

type_synonym 'o result = "(error \<times> 'o state) + 'o state"

definition zero_params :: params where
  "zero_params =
     \<lparr>w1 = (\<lambda>_ _. 0), b1 = (\<lambda>_. 0), w2 = (\<lambda>_ _. 0), b2 = (\<lambda>_. 0),
      w3 = (\<lambda>_ _. 0), b3 = (\<lambda>_. 0)\<rparr>"

definition add_params :: "params \<Rightarrow> params \<Rightarrow> params" where
  "add_params g h =
     \<lparr>w1 = (\<lambda>j k. w1 g j k + w1 h j k), b1 = (\<lambda>j. b1 g j + b1 h j),
      w2 = (\<lambda>j k. w2 g j k + w2 h j k), b2 = (\<lambda>j. b2 g j + b2 h j),
      w3 = (\<lambda>j k. w3 g j k + w3 h j k), b3 = (\<lambda>j. b3 g j + b3 h j)\<rparr>"

definition completed :: "stmt \<Rightarrow> 'o state \<Rightarrow> 'o result" where
  "completed s \<sigma> = Inr (\<sigma>\<lparr>trace := trace \<sigma> @ [s]\<rparr>)"

text \<open>
  One statement. A raising call leaves the state as it was and returns the error with
  that state. Each loss is back-propagated once and no parameter is updated between a
  forward pass and its backward pass anywhere in the notebooks, so the framework's
  errors for those two situations cannot arise and are not part of \<open>Backward\<close>.
\<close>

fun exec_stmt :: "'o env \<Rightarrow> stmt \<Rightarrow> 'o state \<Rightarrow> 'o result" where
  "exec_stmt env (Fetch imgs lbls) \<sigma> =
     completed (Fetch imgs lbls) (\<sigma>\<lparr>images := Some imgs, labels := Some lbls\<rparr>)"
| "exec_stmt env Flatten \<sigma> =
     (case images \<sigma> of
        None \<Rightarrow> Inl (NameError, \<sigma>)
      | Some t \<Rightarrow>
          (case flatten t of
             Inl e \<Rightarrow> Inl (e, \<sigma>)
           | Inr t' \<Rightarrow> completed Flatten (\<sigma>\<lparr>images := Some t'\<rparr>)))"
| "exec_stmt env (Resize s) \<sigma> =
     (case images \<sigma> of
        None \<Rightarrow> Inl (NameError, \<sigma>)
      | Some t \<Rightarrow> completed (Resize s) (\<sigma>\<lparr>images := Some (resize (junk env) t s)\<rparr>))"
| "exec_stmt env ZeroGrad \<sigma> =
     completed ZeroGrad
       (\<sigma>\<lparr>grads := (if set_to_none env then None
                     else map_option (\<lambda>_. zero_params) (grads \<sigma>))\<rparr>)"
| "exec_stmt env Forward \<sigma> =
     (case images \<sigma> of
        None \<Rightarrow> Inl (NameError, \<sigma>)
      | Some t \<Rightarrow>
          (case sequential (model (params \<sigma>)) t of
             Inl e \<Rightarrow> Inl (e, \<sigma>)
           | Inr y \<Rightarrow>
               completed Forward
                 (\<sigma>\<lparr>outp := Some \<lparr>val = y, graph_params = params \<sigma>, graph_input = t\<rparr>\<rparr>)))"
| "exec_stmt env Loss \<sigma> =
     (case outp \<sigma> of
        None \<Rightarrow> Inl (NameError, \<sigma>)
      | Some out \<Rightarrow>
          (case labels \<sigma> of
             None \<Rightarrow> Inl (NameError, \<sigma>)
           | Some ls \<Rightarrow>
               (case nll_loss (val out) ls of
                  Inl e \<Rightarrow> Inl (e, \<sigma>)
                | Inr v \<Rightarrow>
                    completed Loss
                      (\<sigma>\<lparr>loss := Some \<lparr>item = v,
                             gradient = autograd env (graph_params out) (graph_input out) ls\<rparr>\<rparr>))))"
| "exec_stmt env Backward \<sigma> =
     (case loss \<sigma> of
        None \<Rightarrow> Inl (NameError, \<sigma>)
      | Some l \<Rightarrow>
          completed Backward
            (\<sigma>\<lparr>grads := Some (case grads \<sigma> of
                                 None \<Rightarrow> gradient l
                               | Some g \<Rightarrow> add_params g (gradient l))\<rparr>))"
| "exec_stmt env Step \<sigma> =
     (let (o', \<theta>') = opt_step env (opt_state \<sigma>) (params \<sigma>) (grads \<sigma>)
      in completed Step (\<sigma>\<lparr>params := \<theta>', opt_state := o'\<rparr>))"
| "exec_stmt env Accum \<sigma> =
     (case running_loss \<sigma> of
        None \<Rightarrow> Inl (NameError, \<sigma>)
      | Some r \<Rightarrow>
          (case loss \<sigma> of
             None \<Rightarrow> Inl (NameError, \<sigma>)
           | Some l \<Rightarrow> completed Accum (\<sigma>\<lparr>running_loss := Some (r + item l)\<rparr>)))"
| "exec_stmt env (PrintWeight s) \<sigma> =
     completed (PrintWeight s)
       (\<sigma>\<lparr>printed := printed \<sigma> @ [s @ '' '' @ str_weight env (w1 (params \<sigma>))]\<rparr>)"
| "exec_stmt env (PrintGrad s) \<sigma> =
     completed (PrintGrad s)
       (\<sigma>\<lparr>printed := printed \<sigma> @
           [s @ '' '' @ (case grads \<sigma> of
                           None \<Rightarrow> ''None''
                         | Some g \<Rightarrow> str_weight env (w1 g))]\<rparr>)"

text \<open>Statements in sequence: the first error ends the run.\<close>

fun run_stmts :: "'o env \<Rightarrow> stmt list \<Rightarrow> 'o state \<Rightarrow> 'o result" where
  "run_stmts env [] \<sigma> = Inr \<sigma>"
| "run_stmts env (s # ss) \<sigma> =
     (case exec_stmt env s \<sigma> of
        Inl e \<Rightarrow> Inl e
      | Inr \<sigma>' \<Rightarrow> run_stmts env ss \<sigma>')"

section \<open>The training cell\<close>

text \<open>
  \<^verbatim>\<open>
  epochs = 5
  for e in range(epochs):
      running_loss = 0
      for images, labels in trainloader:
          images = images.view(images.shape[0], -1)
          optimizer.zero_grad()
          output = model(images)
          loss = criterion(output, labels)
          loss.backward()
          optimizer.step()
          running_loss += loss.item()
      else:
          print(f"Training loss: {running_loss/len(trainloader)}")
  \<close>
  The loader shuffles, so each epoch has its own list of batches: \<open>ld e\<close> is the list of
  epoch \<open>e\<close>, and \<^verbatim>\<open>len(trainloader)\<close> is its length.
\<close>

definition train_body :: "stmt list" where
  "train_body = [Flatten, ZeroGrad, Forward, Loss, Backward, Step, Accum]"

definition train_batch :: "'o env \<Rightarrow> tensor \<times> nat list \<Rightarrow> 'o state \<Rightarrow> 'o result" where
  "train_batch env b \<sigma> =
     run_stmts env train_body (\<sigma>\<lparr>images := Some (fst b), labels := Some (snd b)\<rparr>)"

fun train_batches :: "'o env \<Rightarrow> (tensor \<times> nat list) list \<Rightarrow> 'o state \<Rightarrow> 'o result" where
  "train_batches env [] \<sigma> = Inr \<sigma>"
| "train_batches env (b # bs) \<sigma> =
     (case train_batch env b \<sigma> of
        Inl e \<Rightarrow> Inl e
      | Inr \<sigma>' \<Rightarrow> train_batches env bs \<sigma>')"

definition loss_line :: "'o env \<Rightarrow> real \<Rightarrow> string" where
  "loss_line env v = ''Training loss: '' @ str_float env v"

definition print_loss :: "'o env \<Rightarrow> nat \<Rightarrow> 'o state \<Rightarrow> 'o result" where
  "print_loss env n \<sigma> =
     (case running_loss \<sigma> of
        None \<Rightarrow> Inl (NameError, \<sigma>)
      | Some r \<Rightarrow>
          if n = 0 then Inl (ZeroDivisionError, \<sigma>)
          else Inr (\<sigma>\<lparr>printed := printed \<sigma> @ [loss_line env (r / real n)]\<rparr>))"

definition train_epoch :: "'o env \<Rightarrow> (tensor \<times> nat list) list \<Rightarrow> 'o state \<Rightarrow> 'o result" where
  "train_epoch env bs \<sigma> =
     (case train_batches env bs (\<sigma>\<lparr>running_loss := Some 0\<rparr>) of
        Inl e \<Rightarrow> Inl e
      | Inr \<sigma>' \<Rightarrow> print_loss env (length bs) \<sigma>')"




text \<open>The state a cell leaves behind, whether or not it raised.\<close>

definition final :: "'o result \<Rightarrow> 'o state" where
  "final r = (case r of Inl (e, \<sigma>) \<Rightarrow> \<sigma> | Inr \<sigma> \<Rightarrow> \<sigma>)"

text \<open>The values \<^verbatim>\<open>loss.item()\<close> takes, batch after batch, while the batches run.\<close>

fun loss_items :: "'o env \<Rightarrow> (tensor \<times> nat list) list \<Rightarrow> 'o state \<Rightarrow> real list" where
  "loss_items env [] \<sigma> = []"
| "loss_items env (b # bs) \<sigma> =
     (case train_batch env b \<sigma> of
        Inl e \<Rightarrow> []
      | Inr \<sigma>' \<Rightarrow>
          (case loss \<sigma>' of
             None \<Rightarrow> []
           | Some l \<Rightarrow> item l # loss_items env bs \<sigma>'))"

section \<open>The one-step cells of Part 3\<close>

text \<open>
  \<^verbatim>\<open>
  print('Initial weights - ', model[0].weight)
  images, labels = next(iter(trainloader))
  images.resize_(64, 784)
  optimizer.zero_grad()
  output = model(images)
  loss = criterion(output, labels)
  loss.backward()
  print('Gradient -', model[0].weight.grad)
  \<close>
  and, in the next cell,
  \<^verbatim>\<open>
  optimizer.step()
  print('Updated weights - ', model[0].weight)
  \<close>
\<close>

definition demo_body :: "tensor \<times> nat list \<Rightarrow> stmt list" where
  "demo_body b =
     [PrintWeight ''Initial weights - '', Fetch (fst b) (snd b), Resize [64, 784],
      ZeroGrad, Forward, Loss, Backward, PrintGrad ''Gradient -'']"

definition demo_cell :: "'o env \<Rightarrow> tensor \<times> nat list \<Rightarrow> 'o state \<Rightarrow> 'o result" where
  "demo_cell env b \<sigma> = run_stmts env (demo_body b) \<sigma>"

definition step_cell :: "'o env \<Rightarrow> 'o state \<Rightarrow> 'o result" where
  "step_cell env \<sigma> = run_stmts env [Step, PrintWeight ''Updated weights - ''] \<sigma>"

section \<open>The prediction cells\<close>



section \<open>A concrete session\<close>

text \<open>
  \<^verbatim>\<open>optim.SGD(model.parameters(), lr)\<close> without momentum: every parameter that has a
  gradient moves against it by \<open>lr\<close> times the gradient. It keeps no state.
\<close>

definition sgd :: "real \<Rightarrow> unit \<Rightarrow> params \<Rightarrow> params option \<Rightarrow> unit \<times> params" where
  "sgd lr u \<theta> g =
     (u, case g of
           None \<Rightarrow> \<theta>
         | Some h \<Rightarrow>
             \<lparr>w1 = (\<lambda>j k. w1 \<theta> j k - lr * w1 h j k), b1 = (\<lambda>j. b1 \<theta> j - lr * b1 h j),
              w2 = (\<lambda>j k. w2 \<theta> j k - lr * w2 h j k), b2 = (\<lambda>j. b2 \<theta> j - lr * b2 h j),
              w3 = (\<lambda>j k. w3 \<theta> j k - lr * w3 h j k), b3 = (\<lambda>j. b3 \<theta> j - lr * b3 h j)\<rparr>)"

text \<open>
  A session used to instantiate the theorems below: the network with all parameters
  zero, an \<open>autograd\<close> that returns the zero gradient, the optimizer of Part 3, batches
  of black images labelled with class 0.
\<close>

definition env0 :: "unit env" where
  "env0 =
     \<lparr>autograd = (\<lambda>_ _ _. zero_params), opt_step = sgd (3 / 1000), set_to_none = False,
      junk = (\<lambda>_. 0), str_float = (\<lambda>_. ''v''), str_weight = (\<lambda>_. ''w'')\<rparr>"

definition state0 :: "unit state" where
  "state0 =
     \<lparr>params = zero_params, grads = None, opt_state = (), images = None, labels = None,
      outp = None, loss = None, running_loss = None, printed = [], trace = []\<rparr>"

definition black :: "nat \<Rightarrow> tensor \<times> nat list" where
  "black b = (\<lparr>shape = [b, 1, 28, 28], data = replicate (b * 784) 0\<rparr>, replicate b 0)"



text \<open>A session in which an earlier backward pass has left a gradient behind.\<close>

definition stale0 :: "unit state" where
  "stale0 = state0\<lparr>grads := Some (zero_params\<lparr>b3 := (\<lambda>_. 1)\<rparr>), running_loss := Some 0\<rparr>"

section \<open>Auxiliary facts\<close>

subsection \<open>Shapes and the layers\<close>

lemma index_lt:
  fixes i j b c :: nat
  assumes "i < b" "j < c"
  shows "i * c + j < b * c"
proof -
  have "i * c + j < i * c + c" using assms(2) by simp
  also have "\<dots> = Suc i * c" by simp
  also have "\<dots> \<le> b * c" using assms(1) by (intro mult_le_mono1) simp
  finally show ?thesis .
qed

lemma add_zero_params: "add_params zero_params g = g"
  by (simp add: add_params_def zero_params_def)

lemma flatten_batch:
  "0 < b \<Longrightarrow> shape t = [b, 1, 28, 28] \<Longrightarrow> flatten t = Inr (t\<lparr>shape := [b, 784]\<rparr>)"
  by (simp add: flatten_def view_infer_def numel_def)

lemma linear_2d:
  "shape t = [b, n] \<Longrightarrow> \<exists>z. linear n m W c t = Inr z \<and> shape z = [b, m]"
  by (simp add: linear_def)

lemma relu_shape: "shape (relu t) = shape t"
  by (simp add: relu_def)

lemma log_softmax_2d:
  "shape t = [b, c] \<Longrightarrow>
   log_softmax t =
     Inr (t\<lparr>data := map (\<lambda>q. data t ! q - ln (\<Sum>j<c. exp (data t ! (q div c * c + j))))
                         [0 ..< b * c]\<rparr>)"
  by (simp add: log_softmax_def Let_def)

lemma model_logits:
  assumes "shape t = [b, 784]"
  shows "\<exists>z. shape z = [b, 10] \<and> sequential (model \<theta>) t = log_softmax z"
proof -
  obtain z1 where z1: "linear 784 128 (w1 \<theta>) (b1 \<theta>) t = Inr z1" "shape z1 = [b, 128]"
    using linear_2d [OF assms] by blast
  have s1: "shape (relu z1) = [b, 128]" by (simp add: relu_shape z1)
  obtain z2 where z2: "linear 128 64 (w2 \<theta>) (b2 \<theta>) (relu z1) = Inr z2" "shape z2 = [b, 64]"
    using linear_2d [OF s1] by blast
  have s2: "shape (relu z2) = [b, 64]" by (simp add: relu_shape z2)
  obtain z3 where z3: "linear 64 10 (w3 \<theta>) (b3 \<theta>) (relu z2) = Inr z3" "shape z3 = [b, 10]"
    using linear_2d [OF s2] by blast
  have "sequential (model \<theta>) t = log_softmax z3"
    by (simp add: model_def z1 z2 z3 split: sum.splits)
  with z3 show ?thesis by blast
qed






subsection \<open>Statements in sequence\<close>


lemma exec_stmt_error: "exec_stmt env s \<sigma> = Inl (e, \<sigma>e) \<Longrightarrow> \<sigma>e = \<sigma>"
  by (cases s)
     (auto simp: completed_def Let_def split: option.splits sum.splits prod.splits)

lemma exec_stmt_params:
  "exec_stmt env s \<sigma> = Inr \<sigma>' \<Longrightarrow> s \<noteq> Step \<Longrightarrow> params \<sigma>' = params \<sigma>"
  by (cases s)
     (auto simp: completed_def Let_def split: option.splits sum.splits prod.splits)




lemma run_stmts_error:
  "run_stmts env ss \<sigma> = Inl (e, \<sigma>e) \<Longrightarrow>
   \<exists>pre s post. ss = pre @ s # post \<and> run_stmts env pre \<sigma> = Inr \<sigma>e
      \<and> exec_stmt env s \<sigma>e = Inl (e, \<sigma>e)"
proof (induction ss arbitrary: \<sigma>)
  case Nil
  then show ?case by simp
next
  case (Cons s ss)
  show ?case
  proof (cases "exec_stmt env s \<sigma>")
    case (Inl x)
    with Cons.prems have x: "x = (e, \<sigma>e)" by simp
    with Inl have "\<sigma>e = \<sigma>" by (auto dest: exec_stmt_error)
    with Inl x have "s # ss = [] @ s # ss \<and> run_stmts env [] \<sigma> = Inr \<sigma>e
        \<and> exec_stmt env s \<sigma>e = Inl (e, \<sigma>e)" by simp
    then show ?thesis by blast
  next
    case (Inr \<sigma>1)
    with Cons.prems have "run_stmts env ss \<sigma>1 = Inl (e, \<sigma>e)" by simp
    from Cons.IH [OF this] obtain pre s' post where
      "ss = pre @ s' # post" "run_stmts env pre \<sigma>1 = Inr \<sigma>e"
      "exec_stmt env s' \<sigma>e = Inl (e, \<sigma>e)" by blast
    with Inr have "s # ss = (s # pre) @ s' # post \<and> run_stmts env (s # pre) \<sigma> = Inr \<sigma>e
        \<and> exec_stmt env s' \<sigma>e = Inl (e, \<sigma>e)" by simp
    then show ?thesis by blast
  qed
qed

lemma run_stmts_params:
  "run_stmts env ss \<sigma> = Inr \<sigma>' \<Longrightarrow> Step \<notin> set ss \<Longrightarrow> params \<sigma>' = params \<sigma>"
proof (induction ss arbitrary: \<sigma>)
  case Nil
  then show ?case by simp
next
  case (Cons s ss)
  then obtain \<sigma>1 where 1: "exec_stmt env s \<sigma> = Inr \<sigma>1" and 2: "run_stmts env ss \<sigma>1 = Inr \<sigma>'"
    by (auto split: sum.splits)
  from Cons.prems have "s \<noteq> Step" "Step \<notin> set ss" by auto
  then show ?case using Cons.IH [OF 2] exec_stmt_params [OF 1] by simp
qed


subsection \<open>One batch\<close>




text \<open>What one iteration computes, statement by statement.\<close>

lemma train_batch_result:
  assumes "train_batch env (x, ls) \<sigma> = Inr \<sigma>'"
  shows "\<exists>t y v r o' \<theta>'.
           flatten x = Inr t \<and> sequential (model (params \<sigma>)) t = Inr y
         \<and> nll_loss y ls = Inr v \<and> running_loss \<sigma> = Some r
         \<and> opt_step env (opt_state \<sigma>) (params \<sigma>) (Some (autograd env (params \<sigma>) t ls)) = (o', \<theta>')
         \<and> \<sigma>' = \<sigma>\<lparr>images := Some t, labels := Some ls,
                  grads := Some (autograd env (params \<sigma>) t ls),
                  outp := Some \<lparr>val = y, graph_params = params \<sigma>, graph_input = t\<rparr>,
                  loss := Some \<lparr>item = v, gradient = autograd env (params \<sigma>) t ls\<rparr>,
                  params := \<theta>', opt_state := o',
                  running_loss := Some (r + v),
                  trace := trace \<sigma> @ train_body\<rparr>"
  using assms
  by (auto simp: train_batch_def train_body_def completed_def Let_def add_zero_params
           split: option.splits sum.splits prod.splits if_splits)


subsection \<open>The batches of an epoch\<close>

lemma train_batches_append:
  "train_batches env (xs @ ys) \<sigma> =
     (case train_batches env xs \<sigma> of Inl x \<Rightarrow> Inl x | Inr \<sigma>' \<Rightarrow> train_batches env ys \<sigma>')"
  by (induction xs arbitrary: \<sigma>) (auto split: sum.splits)




lemma train_batch_running_loss:
  assumes "train_batch env b \<sigma> = Inr \<sigma>'"
  shows "\<exists>r l. running_loss \<sigma> = Some r \<and> loss \<sigma>' = Some l
           \<and> running_loss \<sigma>' = Some (r + item l)"
proof -
  obtain x ls where b: "b = (x, ls)" by (cases b)
  from train_batch_result [OF assms [unfolded b]] show ?thesis by auto
qed

lemma train_batches_running_loss:
  "train_batches env bs \<sigma> = Inr \<sigma>' \<Longrightarrow> running_loss \<sigma> = Some r \<Longrightarrow>
   running_loss \<sigma>' = Some (r + sum_list (loss_items env bs \<sigma>))"
proof (induction bs arbitrary: \<sigma> r)
  case Nil
  then show ?case by simp
next
  case (Cons b bs)
  then obtain \<sigma>1 where 1: "train_batch env b \<sigma> = Inr \<sigma>1"
    and 2: "train_batches env bs \<sigma>1 = Inr \<sigma>'"
    by (auto split: sum.splits)
  from train_batch_running_loss [OF 1] Cons.prems(2) obtain l where
    l: "loss \<sigma>1 = Some l" "running_loss \<sigma>1 = Some (r + item l)" by auto
  from Cons.IH [OF 2 l(2)] 1 l(1) show ?case by (simp add: add.assoc)
qed


lemma loss_items_length:
  "train_batches env bs \<sigma> = Inr \<sigma>' \<Longrightarrow> length (loss_items env bs \<sigma>) = length bs"
proof (induction bs arbitrary: \<sigma>)
  case Nil
  then show ?case by simp
next
  case (Cons b bs)
  then obtain \<sigma>1 where 1: "train_batch env b \<sigma> = Inr \<sigma>1"
    and 2: "train_batches env bs \<sigma>1 = Inr \<sigma>'"
    by (auto split: sum.splits)
  from train_batch_running_loss [OF 1] obtain l where "loss \<sigma>1 = Some l" by blast
  with Cons.IH [OF 2] 1 show ?case by simp
qed



subsection \<open>The session with all parameters zero\<close>

lemma linear_zero:
  "shape t = [b, n] \<Longrightarrow>
   linear n m (\<lambda>_ _. 0) (\<lambda>_. 0) t = Inr \<lparr>shape = [b, m], data = replicate (b * m) 0\<rparr>"
  by (simp add: linear_def map_replicate_const)

lemma relu_zero:
  "relu \<lparr>shape = s, data = replicate n 0\<rparr> = \<lparr>shape = s, data = replicate n 0\<rparr>"
  by (simp add: relu_def)

lemma log_softmax_zero:
  "log_softmax \<lparr>shape = [b, 10], data = replicate (b * 10) 0\<rparr>
     = Inr \<lparr>shape = [b, 10], data = replicate (b * 10) (- ln 10)\<rparr>"
proof -
  have lt: "q div 10 * 10 + j < b * 10" if "q < b * 10" "j < 10" for q j :: nat
    using that by (intro index_lt) (simp_all add: less_mult_imp_div_less)
  have "map (\<lambda>q. replicate (b * 10) (0::real) ! q
                - ln (\<Sum>j<10. exp (replicate (b * 10) 0 ! (q div 10 * 10 + j)))) [0..<b * 10]
        = map (\<lambda>q. - ln 10) [0..<b * 10]"
    by (rule map_cong) (auto simp: lt)
  then show ?thesis
    by (simp add: log_softmax_2d map_replicate_const)
qed

lemma forward_zero:
  "shape t = [b, 784] \<Longrightarrow>
   sequential (model zero_params) t = Inr \<lparr>shape = [b, 10], data = replicate (b * 10) (- ln 10)\<rparr>"
  by (simp add: model_def zero_params_def linear_zero relu_zero log_softmax_zero)

lemma nll_uniform:
  assumes "0 < b"
  shows "nll_loss \<lparr>shape = [b, 10], data = replicate (b * 10) (- ln 10)\<rparr> (replicate b 0)
           = Inr (ln 10)"
proof -
  have "(\<Sum>i<b. replicate (b * 10) (- ln (10::real)) ! (i * 10 + replicate b 0 ! i))
        = (\<Sum>i<b. - ln 10)"
    by (rule sum.cong) auto
  with assms show ?thesis by (simp add: nll_loss_def)
qed

lemma sgd_zero: "sgd lr u zero_params (Some zero_params) = (u, zero_params)"
  by (simp add: sgd_def zero_params_def)

lemma flatten_black:
  "0 < b \<Longrightarrow> flatten (fst (black b)) = Inr \<lparr>shape = [b, 784], data = replicate (b * 784) 0\<rparr>"
  by (simp add: black_def flatten_def view_infer_def numel_def)

lemma zero_batch:
  assumes "0 < b" "params \<sigma> = zero_params" "running_loss \<sigma> = Some r"
  shows "\<exists>\<sigma>'. train_batch env0 (black b) \<sigma> = Inr \<sigma>' \<and> params \<sigma>' = zero_params
           \<and> running_loss \<sigma>' = Some (r + ln 10)
           \<and> loss \<sigma>' = Some \<lparr>item = ln 10, gradient = zero_params\<rparr>"
  using assms
  by (simp add: train_batch_def train_body_def completed_def flatten_black forward_zero
        nll_uniform sgd_zero env0_def add_zero_params black_def [of b, THEN arg_cong [of _ _ snd]]
        split: option.splits)


lemma zero_batches:
  assumes "\<forall>b \<in> set bs. 0 < b" "params \<sigma> = zero_params" "running_loss \<sigma> = Some r"
  shows "\<exists>\<sigma>'. train_batches env0 (map black bs) \<sigma> = Inr \<sigma>' \<and> params \<sigma>' = zero_params
           \<and> running_loss \<sigma>' = Some (r + real (length bs) * ln 10)
           \<and> loss_items env0 (map black bs) \<sigma> = replicate (length bs) (ln 10)"
  using assms
proof (induction bs arbitrary: \<sigma> r)
  case Nil
  then show ?case by simp
next
  case (Cons b bs)
  from Cons.prems have b: "0 < b" by simp
  from zero_batch [OF b Cons.prems(2,3)] obtain \<sigma>1 where
    1: "train_batch env0 (black b) \<sigma> = Inr \<sigma>1" "params \<sigma>1 = zero_params"
       "running_loss \<sigma>1 = Some (r + ln 10)"
       "loss \<sigma>1 = Some \<lparr>item = ln 10, gradient = zero_params\<rparr>" by blast
  from Cons.prems have "\<forall>b \<in> set bs. 0 < b" by simp
  from Cons.IH [OF this 1(2,3)] obtain \<sigma>' where
    "train_batches env0 (map black bs) \<sigma>1 = Inr \<sigma>'" "params \<sigma>' = zero_params"
    "running_loss \<sigma>' = Some (r + ln 10 + real (length bs) * ln 10)"
    "loss_items env0 (map black bs) \<sigma>1 = replicate (length bs) (ln 10)" by blast
  with 1 show ?case by (simp add: algebra_simps)
qed



subsection \<open>Shapes and probabilities of the model output\<close>

lemma model_shape:
  assumes "shape t = [b, 784]"
  shows "\<exists>y. sequential (model \<theta>) t = Inr y \<and> shape y = [b, 10]"
proof -
  from model_logits [OF assms] obtain z where
    z: "shape z = [b, 10]" "sequential (model \<theta>) t = log_softmax z" by blast
  then show ?thesis by (simp add: log_softmax_2d)
qed







lemma train_batch_succeeds:
  assumes "0 < b" "shape x = [b, 1, 28, 28]" "length ls = b" "\<forall>l \<in> set ls. l < 10"
    "running_loss \<sigma> = Some r"
  shows "\<exists>\<sigma>'. train_batch env (x, ls) \<sigma> = Inr \<sigma>'"
proof -
  have f: "flatten x = Inr (x\<lparr>shape := [b, 784]\<rparr>)"
    using assms(1,2) by (rule flatten_batch)
  obtain y where y: "sequential (model (params \<sigma>)) (x\<lparr>shape := [b, 784]\<rparr>) = Inr y"
    "shape y = [b, 10]"
    using model_shape [of "x\<lparr>shape := [b, 784]\<rparr>" b "params \<sigma>"] by auto
  have "\<not> (\<exists>l \<in> set ls. 10 \<le> l)" using assms(4) by auto
  then obtain v where v: "nll_loss y ls = Inr v"
    using assms(3) y(2) by (simp add: nll_loss_def)
  show ?thesis
    using assms(5) f y(1) v
    by (simp add: train_batch_def train_body_def completed_def split: prod.splits)
qed

lemma demo_cell_succeeds_iff:
  assumes "shape x = [b, 1, 28, 28]" "length ls = b" "\<forall>l \<in> set ls. l < 10"
  shows "(\<exists>\<sigma>'. demo_cell env (x, ls) \<sigma> = Inr \<sigma>') \<longleftrightarrow> b = 64"
proof -
  let ?\<sigma>1 = "\<sigma>\<lparr>printed := printed \<sigma> @ [''Initial weights - '' @ '' '' @ str_weight env (w1 (params \<sigma>))],
               trace := trace \<sigma> @ [PrintWeight ''Initial weights - '']\<rparr>"
  let ?t = "resize (junk env) x [64, 784]"
  have sh: "shape ?t = [64, 784]" by (simp add: resize_def)
  obtain y where y: "sequential (model (params \<sigma>)) ?t = Inr y" "shape y = [64, 10]"
    using model_shape [OF sh] by blast
  have "\<not> (\<exists>l \<in> set ls. 10 \<le> l)" using assms(3) by auto
  then have "(\<exists>v. nll_loss y ls = Inr v) \<longleftrightarrow> b = 64"
    using assms(2) y(2) by (auto simp: nll_loss_def)
  then show ?thesis
    using y(1)
    by (auto simp: demo_cell_def demo_body_def completed_def split: sum.splits)
qed

subsection \<open>Failing runs\<close>




lemma run_stmts_final_params:
  assumes "Step \<notin> set ss"
  shows "params (final (run_stmts env ss \<sigma>)) = params \<sigma>"
proof (cases "run_stmts env ss \<sigma>")
  case (Inl x)
  obtain e \<sigma>e where x: "x = (e, \<sigma>e)" by (cases x)
  from run_stmts_error [OF Inl [unfolded x]] obtain pre s post where
    *: "ss = pre @ s # post" "run_stmts env pre \<sigma> = Inr \<sigma>e" by blast
  with assms have "Step \<notin> set pre" by simp
  from run_stmts_params [OF *(2) this] Inl x show ?thesis by (simp add: final_def)
next
  case (Inr \<sigma>')
  from run_stmts_params [OF Inr assms] Inr show ?thesis by (simp add: final_def)
qed




section \<open>Properties of the notebooks\<close>



text \<open>
  C2. In every iteration the gradients are zeroed before the backward pass, so the
  gradient the optimizer step consumes is exactly the gradient of the current
  mini-batch, whatever gradient earlier iterations left behind.
\<close>

theorem gradients_of_current_batch:
  "train_batch env (x, ls) \<sigma> = Inr \<sigma>' \<Longrightarrow>
   \<exists>t. flatten x = Inr t
     \<and> grads \<sigma>' = Some (autograd env (params \<sigma>) t ls)
     \<and> (opt_state \<sigma>', params \<sigma>') =
         opt_step env (opt_state \<sigma>) (params \<sigma>) (Some (autograd env (params \<sigma>) t ls))
     \<and> trace \<sigma>' = trace \<sigma> @ [Flatten, ZeroGrad, Forward, Loss, Backward, Step, Accum]"
proof -
  assume "train_batch env (x, ls) \<sigma> = Inr \<sigma>'"
  from train_batch_result [OF this] obtain t o' \<theta>' where
    t: "flatten x = Inr t"
    and step: "opt_step env (opt_state \<sigma>) (params \<sigma>) (Some (autograd env (params \<sigma>) t ls))
                = (o', \<theta>')"
    and g: "grads \<sigma>' = Some (autograd env (params \<sigma>) t ls)"
    and p: "params \<sigma>' = \<theta>'" "opt_state \<sigma>' = o'"
    and tr: "trace \<sigma>' = trace \<sigma> @ train_body"
    by auto
  from t step g p tr show ?thesis
    by (simp add: train_body_def)
qed

theorem gradients_of_current_batch_witness:
  "grads stale0 = Some (zero_params\<lparr>b3 := (\<lambda>_. 1)\<rparr>)
   \<and> (\<exists>\<sigma>'. train_batch env0 (black 2) stale0 = Inr \<sigma>'
         \<and> grads \<sigma>' = Some zero_params \<and> params \<sigma>' = zero_params)"
proof -
  have p: "params stale0 = zero_params" and r: "running_loss stale0 = Some 0"
    by (simp_all add: stale0_def state0_def)
  obtain \<sigma>' where 1: "train_batch env0 (black 2) stale0 = Inr \<sigma>'"
    and 2: "params \<sigma>' = zero_params"
    using zero_batch [of 2 stale0 0, OF _ p r] by auto
  have "grads \<sigma>' = Some zero_params"
    using gradients_of_current_batch [of env0 "fst (black 2)" "snd (black 2)" stale0 \<sigma>'] 1
    by (auto simp: env0_def)
  with 1 2 show ?thesis by (auto simp: stale0_def)
qed

text \<open>
  C3. The running loss is reset to zero at the start of every epoch, so an epoch does
  not depend on the value an earlier epoch left in it; after any number of the epoch's
  batches it is the sum of \<^verbatim>\<open>loss.item()\<close> over exactly those batches.
\<close>

theorem running_loss_sums_epoch:
  "train_epoch env bs (\<sigma>\<lparr>running_loss := r0\<rparr>) = train_epoch env bs \<sigma>
   \<and> train_batches env (pre @ post) (\<sigma>\<lparr>running_loss := Some 0\<rparr>) =
        (case train_batches env pre (\<sigma>\<lparr>running_loss := Some 0\<rparr>) of
           Inl x \<Rightarrow> Inl x
         | Inr \<sigma>1 \<Rightarrow> train_batches env post \<sigma>1)
   \<and> (train_batches env pre (\<sigma>\<lparr>running_loss := Some 0\<rparr>) = Inr \<sigma>1 \<longrightarrow>
        running_loss \<sigma>1 = Some (sum_list (loss_items env pre (\<sigma>\<lparr>running_loss := Some 0\<rparr>)))
        \<and> length (loss_items env pre (\<sigma>\<lparr>running_loss := Some 0\<rparr>)) = length pre)"
proof (intro conjI impI)
  show "train_epoch env bs (\<sigma>\<lparr>running_loss := r0\<rparr>) = train_epoch env bs \<sigma>"
    by (simp add: train_epoch_def)
next
  show "train_batches env (pre @ post) (\<sigma>\<lparr>running_loss := Some 0\<rparr>) =
        (case train_batches env pre (\<sigma>\<lparr>running_loss := Some 0\<rparr>) of
           Inl x \<Rightarrow> Inl x
         | Inr \<sigma>1 \<Rightarrow> train_batches env post \<sigma>1)"
    by (rule train_batches_append)
next
  assume run: "train_batches env pre (\<sigma>\<lparr>running_loss := Some 0\<rparr>) = Inr \<sigma>1"
  from train_batches_running_loss [OF run, of 0]
  show "running_loss \<sigma>1 = Some (sum_list (loss_items env pre (\<sigma>\<lparr>running_loss := Some 0\<rparr>)))"
    by simp
  from run show "length (loss_items env pre (\<sigma>\<lparr>running_loss := Some 0\<rparr>)) = length pre"
    by (rule loss_items_length)
qed

theorem running_loss_sums_epoch_witness:
  "\<exists>\<sigma>1. train_batches env0 (map black [2, 1]) (state0\<lparr>running_loss := Some 0\<rparr>) = Inr \<sigma>1
     \<and> loss_items env0 (map black [2, 1]) (state0\<lparr>running_loss := Some 0\<rparr>) = [ln 10, ln 10]
     \<and> running_loss \<sigma>1 = Some (ln 10 + ln 10)"
proof -
  let ?s = "state0\<lparr>running_loss := Some 0\<rparr>"
  have p: "params ?s = zero_params" and r: "running_loss ?s = Some 0"
    by (simp_all add: state0_def)
  obtain \<sigma>1 where 1: "train_batches env0 (map black [2, 1]) ?s = Inr \<sigma>1"
    and 2: "loss_items env0 (map black [2, 1]) ?s = replicate (length [2::nat, 1]) (ln 10)"
    using zero_batches [of "[2, 1]" ?s 0, OF _ p r] by auto
  from 2 have 3: "loss_items env0 (map black [2, 1]) ?s = [ln 10, ln 10]"
    by (simp add: numeral_2_eq_2)
  note sums = running_loss_sums_epoch [where env = env0 and \<sigma> = state0
      and pre = "map black [2, 1]" and ?\<sigma>1.0 = \<sigma>1, THEN conjunct2, THEN conjunct2,
      rule_format, OF 1]
  from sums 3 have "running_loss \<sigma>1 = Some (ln 10 + ln 10)"
    by simp
  with 1 3 show ?thesis by blast
qed

text \<open>
  C4. Only the optimizer step changes the model parameters: every other statement,
  whether it returns or raises, leaves them as they were, and so does the whole
  one-step cell that ends with the backward pass; the backward pass changes nothing
  but the stored gradients (and the record of completed statements). The step, alone
  or in its cell, installs the parameters the optimizer's update rule returns.
\<close>

theorem parameters_change_only_in_step:
  "(s \<noteq> Step \<longrightarrow> params (final (exec_stmt env s \<sigma>)) = params \<sigma>)
   \<and> (exec_stmt env Backward \<sigma> = Inr \<sigma>' \<longrightarrow>
        \<sigma>' = \<sigma>\<lparr>grads := grads \<sigma>', trace := trace \<sigma>'\<rparr>)
   \<and> params (final (demo_cell env b \<sigma>)) = params \<sigma>
   \<and> params (final (exec_stmt env Step \<sigma>)) =
        snd (opt_step env (opt_state \<sigma>) (params \<sigma>) (grads \<sigma>))
   \<and> params (final (step_cell env \<sigma>)) =
        snd (opt_step env (opt_state \<sigma>) (params \<sigma>) (grads \<sigma>))"
proof (intro conjI impI)
  assume s: "s \<noteq> Step"
  have "params (final (run_stmts env [s] \<sigma>)) = params \<sigma>"
    using s by (intro run_stmts_final_params) simp
  then show "params (final (exec_stmt env s \<sigma>)) = params \<sigma>"
    by (auto simp: final_def split: sum.splits prod.splits)
next
  assume "exec_stmt env Backward \<sigma> = Inr \<sigma>'"
  then show "\<sigma>' = \<sigma>\<lparr>grads := grads \<sigma>', trace := trace \<sigma>'\<rparr>"
    by (auto simp: completed_def split: option.splits)
next
  show "params (final (demo_cell env b \<sigma>)) = params \<sigma>"
    unfolding demo_cell_def by (rule run_stmts_final_params) (simp add: demo_body_def)
next
  show "params (final (exec_stmt env Step \<sigma>)) =
        snd (opt_step env (opt_state \<sigma>) (params \<sigma>) (grads \<sigma>))"
    by (simp add: final_def completed_def split: prod.splits)
next
  show "params (final (step_cell env \<sigma>)) =
        snd (opt_step env (opt_state \<sigma>) (params \<sigma>) (grads \<sigma>))"
    by (simp add: step_cell_def final_def completed_def split: prod.splits)
qed

theorem parameters_change_only_in_step_witness:
  "Backward \<noteq> Step
   \<and> exec_stmt env0 Backward (state0\<lparr>loss := Some \<lparr>item = ln 10, gradient = zero_params\<rparr>\<rparr>)
       = Inr (state0\<lparr>loss := Some \<lparr>item = ln 10, gradient = zero_params\<rparr>,
                     grads := Some zero_params, trace := [Backward]\<rparr>)
   \<and> params (final (exec_stmt env0 Backward
                (state0\<lparr>loss := Some \<lparr>item = ln 10, gradient = zero_params\<rparr>\<rparr>))) = zero_params"
proof -
  let ?s = "state0\<lparr>loss := Some \<lparr>item = ln 10, gradient = zero_params\<rparr>\<rparr>"
  have 1: "exec_stmt env0 Backward ?s = Inr (?s\<lparr>grads := Some zero_params, trace := [Backward]\<rparr>)"
    by (simp add: completed_def state0_def)
  have "params (final (exec_stmt env0 Backward ?s)) = params ?s"
    using parameters_change_only_in_step [of Backward env0 ?s] by simp
  then have "params (final (exec_stmt env0 Backward ?s)) = zero_params"
    by (simp add: state0_def)
  with 1 show ?thesis by simp
qed




text \<open>
  C6 (as stated). The body of the loop over the mini-batches does not consist of five
  statements.
\<close>

theorem five_statement_body_counterexample: "length train_body \<noteq> 5"
  by (simp add: train_body_def)

text \<open>
  C6 (amended). The body of the loop over the mini-batches consists of exactly seven
  statements, executed in sequence: the flattening of the batch and the six operations
  zero-gradients, forward, loss, backward, optimizer step, accumulate running loss.
\<close>

theorem seven_statement_body:
  "train_body = [Flatten, ZeroGrad, Forward, Loss, Backward, Step, Accum]
   \<and> length train_body = 7
   \<and> train_batch env b \<sigma> =
       run_stmts env [Flatten, ZeroGrad, Forward, Loss, Backward, Step, Accum]
         (\<sigma>\<lparr>images := Some (fst b), labels := Some (snd b)\<rparr>)"
  by (simp add: train_body_def train_batch_def)



text \<open>
  C9. Flattening with \<^verbatim>\<open>images.view(images.shape[0], -1)\<close> keeps the batch dimension: a
  batch of \<open>b > 0\<close> images of shape \<open>1 \<times> 28 \<times> 28\<close> becomes a tensor of shape \<open>(b, 784)\<close>
  with the same elements, which the model accepts for every value of its parameters, so
  an iteration of the training loop on such a batch with \<open>b\<close> valid labels does not
  raise. The one-step cell, which uses \<^verbatim>\<open>images.resize_(64, 784)\<close>, runs without raising
  exactly when the batch holds 64 images.
\<close>

theorem flatten_keeps_batch_dimension:
  "(0 < b \<and> shape x = [b, 1, 28, 28] \<longrightarrow>
      flatten x = Inr (x\<lparr>shape := [b, 784]\<rparr>)
      \<and> (\<exists>y. sequential (model \<theta>) (x\<lparr>shape := [b, 784]\<rparr>) = Inr y \<and> shape y = [b, 10]))
   \<and> (0 < b \<and> shape x = [b, 1, 28, 28] \<and> length ls = b \<and> (\<forall>l \<in> set ls. l < 10)
        \<and> running_loss \<sigma> = Some r \<longrightarrow>
        (\<exists>\<sigma>'. train_batch env (x, ls) \<sigma> = Inr \<sigma>'))
   \<and> (shape x = [b, 1, 28, 28] \<and> length ls = b \<and> (\<forall>l \<in> set ls. l < 10) \<longrightarrow>
        ((\<exists>\<sigma>'. demo_cell env (x, ls) \<sigma> = Inr \<sigma>') \<longleftrightarrow> b = 64))"
proof (intro conjI impI)
  assume a: "0 < b \<and> shape x = [b, 1, 28, 28]"
  then show "flatten x = Inr (x\<lparr>shape := [b, 784]\<rparr>)"
    by (simp add: flatten_batch)
  show "\<exists>y. sequential (model \<theta>) (x\<lparr>shape := [b, 784]\<rparr>) = Inr y \<and> shape y = [b, 10]"
    by (rule model_shape) simp
next
  assume "0 < b \<and> shape x = [b, 1, 28, 28] \<and> length ls = b \<and> (\<forall>l \<in> set ls. l < 10)
        \<and> running_loss \<sigma> = Some r"
  then show "\<exists>\<sigma>'. train_batch env (x, ls) \<sigma> = Inr \<sigma>'"
    by (intro train_batch_succeeds [of b x ls \<sigma> r]) simp_all
next
  assume "shape x = [b, 1, 28, 28] \<and> length ls = b \<and> (\<forall>l \<in> set ls. l < 10)"
  then show "(\<exists>\<sigma>'. demo_cell env (x, ls) \<sigma> = Inr \<sigma>') \<longleftrightarrow> b = 64"
    by (intro demo_cell_succeeds_iff) simp_all
qed

theorem flatten_keeps_batch_dimension_witness:
  "flatten (fst (black 32)) = Inr ((fst (black 32))\<lparr>shape := [32, 784]\<rparr>)
   \<and> (\<exists>y. sequential (model zero_params) ((fst (black 32))\<lparr>shape := [32, 784]\<rparr>) = Inr y
          \<and> shape y = [32, 10])
   \<and> (\<exists>\<sigma>'. train_batch env0 (black 32) (state0\<lparr>running_loss := Some 0\<rparr>) = Inr \<sigma>')
   \<and> \<not> (\<exists>\<sigma>'. demo_cell env0 (black 32) state0 = Inr \<sigma>')
   \<and> (\<exists>\<sigma>'. demo_cell env0 (black 64) state0 = Inr \<sigma>')"
proof -
  have sh: "shape (fst (black n)) = [n, 1, 28, 28]" and len: "length (snd (black n)) = n"
    and lab: "\<forall>l \<in> set (snd (black n)). l < 10" for n
    by (simp_all add: black_def)
  have pair: "black n = (fst (black n), snd (black n))" for n by simp
  have r: "running_loss (state0\<lparr>running_loss := Some 0\<rparr>) = Some 0" by simp
  note a = flatten_keeps_batch_dimension [where b = 32 and x = "fst (black 32)"
      and \<theta> = zero_params, THEN conjunct1, rule_format, OF conjI, OF _ sh]
  note b = flatten_keeps_batch_dimension [where b = 32 and x = "fst (black 32)"
      and ls = "snd (black 32)" and env = env0 and \<sigma> = "state0\<lparr>running_loss := Some 0\<rparr>"
      and r = 0, THEN conjunct2, THEN conjunct1, rule_format, folded pair]
  note c = flatten_keeps_batch_dimension [where x = "fst (black 32)"
      and ls = "snd (black 32)" and env = env0 and \<sigma> = state0 and b = 32,
      THEN conjunct2, THEN conjunct2, rule_format, folded pair]
  note d = flatten_keeps_batch_dimension [where x = "fst (black 64)"
      and ls = "snd (black 64)" and env = env0 and \<sigma> = state0 and b = 64,
      THEN conjunct2, THEN conjunct2, rule_format, folded pair]
  have 1: "flatten (fst (black 32)) = Inr ((fst (black 32))\<lparr>shape := [32, 784]\<rparr>)
     \<and> (\<exists>y. sequential (model zero_params) ((fst (black 32))\<lparr>shape := [32, 784]\<rparr>) = Inr y
          \<and> shape y = [32, 10])"
    using a by simp
  have 2: "\<exists>\<sigma>'. train_batch env0 (black 32) (state0\<lparr>running_loss := Some 0\<rparr>) = Inr \<sigma>'"
    using b sh len lab r by simp
  have 3: "\<not> (\<exists>\<sigma>'. demo_cell env0 (black 32) state0 = Inr \<sigma>')"
    using c sh len lab by simp
  have 4: "\<exists>\<sigma>'. demo_cell env0 (black 64) state0 = Inr \<sigma>'"
    using d sh len lab by simp
  from 1 2 3 4 show ?thesis by blast
qed



end
